theory Spec2Isabelle
  imports Main "HOL-Library.Char_ord" "HOL-Library.List_Lexorder" "HOL-Library.Sublist"
begin

section \<open>Python values shared by the three source files\<close>

text \<open>
  A Python \<open>dict\<close> keeps its keys in insertion order, and the loops of the source
  iterate over \<open>items()\<close>, so a dict is an association list of its items.
  Assigning to a key that is present keeps the key's position; a new key goes last.
\<close>

type_synonym 'v pydict = "(string \<times> 'v) list"

definition dict_get :: "'v pydict \<Rightarrow> string \<Rightarrow> 'v option" where
  "dict_get d k = map_of d k"

fun dict_set :: "'v pydict \<Rightarrow> string \<Rightarrow> 'v \<Rightarrow> 'v pydict" where
  "dict_set [] k v = [(k, v)]"
| "dict_set ((k', v') # d) k v =
     (if k' = k then (k, v) # d else (k', v') # dict_set d k v)"

section \<open>The search route (switchmap/www/routes/pages/search.py)\<close>

type_synonym hostname = string
type_synonym ifindex = int

text \<open>
  \<open>str.strip()\<close> removes leading and trailing whitespace. The characters of a
  \<open>string\<close> are the code points below 256; among them Python counts these as
  whitespace: tab, line feed, vertical tab, form feed, carriage return, the four
  separators 28 to 31, space, next line (133) and no-break space (160).
\<close>

definition isspace :: "char \<Rightarrow> bool" where
  "isspace c = (of_char c \<in> {9, 10, 11, 12, 13, 28, 29, 30, 31, 32, 133, 160 :: nat})"

definition strip :: "string \<Rightarrow> string" where
  "strip s = rev (dropWhile isspace (rev (dropWhile isspace s)))"

text \<open>
  The inner loops of \<open>index\<close>: every item of the search result is a dict
  \<open>{hostname: ifindex}\<close>; the ifindex is appended to the host's list, or starts it.
\<close>

fun add_match :: "hostname \<times> ifindex \<Rightarrow> ifindex list pydict \<Rightarrow> ifindex list pydict" where
  "add_match (hostname, ifindex) devices =
     (case dict_get devices hostname of
        Some ifindexes \<Rightarrow> dict_set devices hostname (ifindexes @ [ifindex])
      | None \<Rightarrow> dict_set devices hostname [ifindex])"

definition accumulate ::
  "(hostname \<times> ifindex) list list \<Rightarrow> ifindex list pydict \<Rightarrow> ifindex list pydict" where
  "accumulate result devices = fold (\<lambda>item dv. fold add_match item dv) result devices"

text \<open>
  The route itself. \<open>Search\<close> of \<open>switchmap.main.search\<close> is not among the source
  files: \<open>search\<close> stands for \<open>Search(search_term).find()\<close>, and gives for a term
  the list of \<open>{hostname: ifindex}\<close> dicts that \<open>find\<close> returns together with the
  number of scans of the cache that \<open>find\<close> performed for it. \<open>ports\<close> stands for
  \<open>Device(CONFIG, hostname, ifindexes).ports()\<close>. The page state holds the two dicts
  of the source and the number of cache scans that the calls of \<open>find\<close> performed.
\<close>

record 'p page =
  devices :: "ifindex list pydict"
  devices_tables :: "(string + 'p) pydict"
  scans :: nat

definition index_item ::
  "(string \<Rightarrow> (hostname \<times> ifindex) list list \<times> nat) \<Rightarrow> (hostname \<Rightarrow> ifindex list \<Rightarrow> 'p)
     \<Rightarrow> string \<times> string \<Rightarrow> 'p page \<Rightarrow> 'p page" where
  "index_item search ports kv st =
     (if fst kv = ''search_term'' then
        (let search_term = strip (snd kv);
             found = search search_term;
             devices' = accumulate (fst found) (devices st)
         in \<lparr> devices = devices',
              devices_tables =
                (if devices' \<noteq> []
                 then map (\<lambda>(hostname, ifindexes). (hostname, Inr (ports hostname ifindexes)))
                          (sort_key fst devices')
                 else devices_tables st),
              scans = scans st + snd found \<rparr>)
      else st)"

definition index ::
  "(string \<Rightarrow> (hostname \<times> ifindex) list list \<times> nat) \<Rightarrow> (hostname \<Rightarrow> ifindex list \<Rightarrow> 'p)
     \<Rightarrow> (string \<times> string) list \<Rightarrow> 'p page" where
  "index search ports form =
     fold (index_item search ports) form
       \<lparr> devices = [],
         devices_tables = [(''Not Found'', Inl ''<h3>&nbsp;Please try again ...</h3>'')],
         scans = 0 \<rparr>"

section \<open>Configuration resolution (maintenance/install.py, class \<open>_Config\<close>)\<close>

text \<open>
  What \<open>yaml.load\<close> returns: null, booleans, integers, strings, lists and dicts with
  string keys. Floats are left out; no value of the seed is one.
\<close>

datatype yval =
    YNull
  | YBool bool
  | YInt int
  | YStr string
  | YList "yval list"
  | YDict "(string \<times> yval) list"

datatype pyerror = KeyError | TypeError | AttributeError | ValueError | OSError | SnmpError

text \<open>
  Python's \<open>==\<close> on these values: \<open>True == 1\<close> and \<open>False == 0\<close>, lists are
  compared element by element, dicts key by key whatever the order of the keys, and
  values of different kinds are unequal.
\<close>

fun py_eq :: "yval \<Rightarrow> yval \<Rightarrow> bool"
  and py_eq_list :: "yval list \<Rightarrow> yval list \<Rightarrow> bool"
  and py_eq_items :: "(string \<times> yval) list \<Rightarrow> (string \<times> yval) list \<Rightarrow> bool"
  and py_eq_value :: "yval \<Rightarrow> string \<Rightarrow> (string \<times> yval) list \<Rightarrow> bool" where
  "py_eq YNull b = (b = YNull)"
| "py_eq (YBool x) b =
     (case b of YBool y \<Rightarrow> x = y | YInt j \<Rightarrow> (if x then 1 else 0) = j | _ \<Rightarrow> False)"
| "py_eq (YInt i) b =
     (case b of YInt j \<Rightarrow> i = j | YBool y \<Rightarrow> i = (if y then 1 else 0) | _ \<Rightarrow> False)"
| "py_eq (YStr s) b = (b = YStr s)"
| "py_eq (YList xs) b = (case b of YList ys \<Rightarrow> py_eq_list xs ys | _ \<Rightarrow> False)"
| "py_eq (YDict d) b =
     (case b of YDict e \<Rightarrow> length d = length e \<and> py_eq_items d e | _ \<Rightarrow> False)"
| "py_eq_list [] ys = (ys = [])"
| "py_eq_list (x # xs) ys =
     (case ys of [] \<Rightarrow> False | y # ys' \<Rightarrow> py_eq x y \<and> py_eq_list xs ys')"
| "py_eq_items [] e = True"
| "py_eq_items ((k, v) # d) e = (py_eq_value v k e \<and> py_eq_items d e)"
| "py_eq_value v k [] = False"
| "py_eq_value v k ((k', w) # e) = (if k = k' then py_eq v w else py_eq_value v k e)"

text \<open>
  \<open>x in container\<close>: membership in a list by \<open>==\<close>, substring test on a string
  (a TypeError unless \<open>x\<close> is a string), key test on a dict (a TypeError when \<open>x\<close>
  is unhashable); anything else is not iterable.
\<close>

fun py_in :: "yval \<Rightarrow> yval \<Rightarrow> pyerror + bool" where
  "py_in x (YList xs) = Inr (list_ex (\<lambda>e. py_eq e x) xs)"
| "py_in x (YStr s) = (case x of YStr t \<Rightarrow> Inr (sublist t s) | _ \<Rightarrow> Inl TypeError)"
| "py_in x (YDict d) =
     (case x of YList _ \<Rightarrow> Inl TypeError | YDict _ \<Rightarrow> Inl TypeError
      | YStr k \<Rightarrow> Inr (k \<in> set (map fst d)) | _ \<Rightarrow> Inr False)"
| "py_in x _ = Inl TypeError"

text \<open>\<open>obj[key]\<close> with a string key: only a dict answers, with a KeyError for a missing key.\<close>

fun subscript :: "yval \<Rightarrow> string \<Rightarrow> pyerror + yval" where
  "subscript (YDict d) k = (case dict_get d k of None \<Rightarrow> Inl KeyError | Some v \<Rightarrow> Inr v)"
| "subscript _ k = Inl TypeError"

text \<open>A loop whose body may raise: the first exception ends it.\<close>

fun for_each :: "('a \<Rightarrow> 's \<Rightarrow> pyerror + 's) \<Rightarrow> 'a list \<Rightarrow> 's \<Rightarrow> pyerror + 's" where
  "for_each body [] s = Inr s"
| "for_each body (x # xs) s =
     (case body x s of Inl e \<Rightarrow> Inl e | Inr s' \<Rightarrow> for_each body xs s')"

text \<open>
  \<open>self.config_dict\<close>. The seed has the two keys \<open>main\<close> (a dict) and \<open>snmp_groups\<close>
  (a list), and no statement of \<open>__init__\<close> assigns to a key of the top level, so the
  top level is a record of the two.
\<close>

record config =
  main :: "yval pydict"
  snmp_groups :: "yval list"

definition config_item :: "config \<Rightarrow> string \<Rightarrow> pyerror + yval" where
  "config_item cfg k =
     (if k = ''main'' then Inr (YDict (main cfg))
      else if k = ''snmp_groups'' then Inr (YList (snmp_groups cfg))
      else Inl KeyError)"

text \<open>
  The seed template. \<open>format(username, None, None)\<close> writes the text \<open>None\<close> for each
  of the two hostnames, and \<open>yaml.load\<close> reads a plain scalar as null only when it is
  spelled \<open>~\<close>, \<open>null\<close>, \<open>Null\<close>, \<open>NULL\<close> or is empty: the two placeholders are
  strings. The other scalars: an empty value is null, digits are an integer,
  \<open>False\<close> is a boolean, the rest are strings. \<open>username\<close> is the value that
  \<open>yaml.load\<close> makes of the formatted user name.
\<close>

definition py_str_None :: string where
  "py_str_None = ''None''"

definition yaml_null_spellings :: "string list" where
  "yaml_null_spellings = [''~'', ''null'', ''Null'', ''NULL'', []]"

definition placeholder :: yval where
  "placeholder = (if py_str_None \<in> set yaml_null_spellings then YNull else YStr py_str_None)"

definition seed_main :: "yval \<Rightarrow> yval pydict" where
  "seed_main username =
     [(''username'', username),
      (''agent_subprocesses'', YInt 20),
      (''bind_port'', YInt 7000),
      (''cache_directory'', YNull),
      (''hostnames'', YList [placeholder, placeholder]),
      (''listen_address'', YStr ''localhost''),
      (''log_directory'', YNull),
      (''log_level'', YStr ''debug''),
      (''polling_interval'', YInt 3600)]"

definition sample_snmpv2 :: yval where
  "sample_snmpv2 = YDict
     [(''group_name'', YStr ''SAMPLE_SNMPv2''),
      (''snmp_version'', YInt 2),
      (''snmp_secname'', YNull),
      (''snmp_community'', YStr ''SAMPLE''),
      (''snmp_port'', YInt 161),
      (''snmp_authprotocol'', YNull),
      (''snmp_authpassword'', YNull),
      (''snmp_privprotocol'', YNull),
      (''snmp_privpassword'', YNull),
      (''enabled'', YBool False)]"

definition sample_snmpv3 :: yval where
  "sample_snmpv3 = YDict
     [(''group_name'', YStr ''SAMPLE_SNMPv3''),
      (''snmp_version'', YInt 3),
      (''snmp_secname'', YStr ''SAMPLE''),
      (''snmp_community'', YNull),
      (''snmp_port'', YInt 161),
      (''snmp_authprotocol'', YStr ''SAMPLE''),
      (''snmp_authpassword'', YStr ''SAMPLE''),
      (''snmp_privprotocol'', YStr ''SAMPLE''),
      (''snmp_privpassword'', YStr ''SAMPLE''),
      (''enabled'', YBool False)]"

definition seed_config :: "yval \<Rightarrow> config" where
  "seed_config username =
     \<lparr> main = seed_main username, snmp_groups = [sample_snmpv2, sample_snmpv3] \<rparr>"

text \<open>
  \<open>_snmp_group_found\<close>: the loop visits every item of the listing (there is no
  \<open>break\<close>) and evaluates \<open>next_item['group_name']\<close> before \<open>item['group_name']\<close>.
\<close>

fun snmp_group_found_loop :: "yval \<Rightarrow> yval list \<Rightarrow> bool \<Rightarrow> pyerror + bool" where
  "snmp_group_found_loop item [] found = Inr found"
| "snmp_group_found_loop item (next_item # listing) found =
     (case subscript next_item ''group_name'' of
        Inl e \<Rightarrow> Inl e
      | Inr a \<Rightarrow>
          (case subscript item ''group_name'' of
             Inl e \<Rightarrow> Inl e
           | Inr b \<Rightarrow> snmp_group_found_loop item listing (if py_eq a b then True else found)))"

definition snmp_group_found :: "yval \<Rightarrow> yval list \<Rightarrow> pyerror + bool" where
  "snmp_group_found item listing = snmp_group_found_loop item listing False"

text \<open>The body of the loop over the items of a \<open>snmp_groups\<close> list (lines 359 to 362).\<close>

definition add_snmp_group :: "yval \<Rightarrow> config \<Rightarrow> pyerror + config" where
  "add_snmp_group item cfg =
     (case snmp_group_found item (snmp_groups cfg) of
        Inl e \<Rightarrow> Inl e
      | Inr found \<Rightarrow>
          if found = False then Inr (cfg\<lparr>snmp_groups := snmp_groups cfg @ [item]\<rparr>)
          else Inr cfg)"

text \<open>
  The loop over the found hostnames (lines 347 to 350). \<open>existing\<close> is the object
  \<open>self.config_dict[_file_key][_sub_key]\<close>, which \<open>append\<close> changes in place; only a
  list has \<open>append\<close>.
\<close>

fun add_hostnames :: "yval list \<Rightarrow> yval \<Rightarrow> pyerror + yval" where
  "add_hostnames [] existing = Inr existing"
| "add_hostnames (hostname # found) existing =
     (case py_in hostname existing of
        Inl e \<Rightarrow> Inl e
      | Inr True \<Rightarrow> add_hostnames found existing
      | Inr False \<Rightarrow>
          (case existing of
             YList xs \<Rightarrow> add_hostnames found (YList (xs @ [hostname]))
           | _ \<Rightarrow> Inl AttributeError))"

text \<open>\<open>self.config_dict[_file_key][_sub_key]\<close>, read.\<close>

definition config_sub_item :: "config \<Rightarrow> string \<Rightarrow> string \<Rightarrow> pyerror + yval" where
  "config_sub_item cfg file_key sub_key =
     (case config_item cfg file_key of
        Inl e \<Rightarrow> Inl e
      | Inr v \<Rightarrow> subscript v sub_key)"

text \<open>
  The body of the loop over the sub keys of a dict value (lines 338 to 354). Storing
  under a sub key needs \<open>self.config_dict[_file_key]\<close> to be a dict: that is
  \<open>main\<close> alone.
\<close>

definition merge_sub_key :: "string \<Rightarrow> string \<times> yval \<Rightarrow> config \<Rightarrow> pyerror + config" where
  "merge_sub_key file_key kv cfg =
     (case snd kv of
        YList found \<Rightarrow>
          (if fst kv = ''hostnames'' then
             (case config_sub_item cfg file_key (fst kv) of
                Inl e \<Rightarrow> Inl e
              | Inr existing \<Rightarrow>
                  (case add_hostnames found existing of
                     Inl e \<Rightarrow> Inl e
                   | Inr merged \<Rightarrow> Inr (cfg\<lparr>main := dict_set (main cfg) (fst kv) merged\<rparr>)))
           else
             (case config_sub_item cfg file_key (fst kv) of
                Inl e \<Rightarrow> Inl e
              | Inr (YList xs) \<Rightarrow>
                  Inr (cfg\<lparr>main := dict_set (main cfg) (fst kv) (YList (xs @ found))\<rparr>)
              | Inr _ \<Rightarrow> Inl AttributeError))
      | value \<Rightarrow>
          (case config_item cfg file_key of
             Inl e \<Rightarrow> Inl e
           | Inr (YDict _) \<Rightarrow> Inr (cfg\<lparr>main := dict_set (main cfg) (fst kv) value\<rparr>)
           | Inr _ \<Rightarrow> Inl TypeError))"

text \<open>The body of the loop over \<open>directory_dict.items()\<close> (lines 332 to 364).\<close>

definition merge_file_key :: "string \<times> yval \<Rightarrow> config \<Rightarrow> pyerror + config" where
  "merge_file_key kv cfg =
     (case snd kv of
        YDict file_value \<Rightarrow> for_each (merge_sub_key (fst kv)) file_value cfg
      | YList file_value \<Rightarrow>
          (if fst kv = ''snmp_groups'' then for_each add_snmp_group file_value cfg
           else
             (case config_item cfg (fst kv) of
                Inl e \<Rightarrow> Inl e
              | Inr (YList xs) \<Rightarrow> Inr (cfg\<lparr>snmp_groups := xs @ file_value\<rparr>)
              | Inr _ \<Rightarrow> Inl AttributeError))
      | _ \<Rightarrow> Inr cfg)"

text \<open>
  \<open>_Config.__init__\<close>: \<open>directory_dict\<close> is what \<open>general.read_yaml_files\<close> made of
  the fragments of the configuration directories (or the empty dict when no
  directory holds one), given as its items in iteration order. The keys of a dict
  are distinct; the loop is the same on any list of items, and a list that repeats
  a key stands for fragments that are handled one after the other.
\<close>

definition Config_init :: "yval \<Rightarrow> yval pydict \<Rightarrow> pyerror + config" where
  "Config_init username directory_dict =
     for_each merge_file_key directory_dict (seed_config username)"

text \<open>The resolved \<open>hostnames\<close> of a configuration.\<close>

definition resolved_hostnames :: "config \<Rightarrow> yval option" where
  "resolved_hostnames cfg = dict_get (main cfg) ''hostnames''"

section \<open>The polling agent (bin/topology.py)\<close>

text \<open>
  The world the agent acts on: the directories and files of the file system (a file
  is named by its directory and its name, and holds its text), the lines written by
  \<open>log.log2info\<close> with their codes, and the calls of \<open>Agent.agent_sleep\<close> with the
  agent's name and the seconds asked for.
\<close>

type_synonym path = "string \<times> string"

record world =
  dirs :: "string set"
  files :: "path \<Rightarrow> string option"
  logged :: "(nat \<times> string) list"
  sleeps :: "(string \<times> nat) list"

text \<open>
  What the agent reads through \<open>configuration.Config\<close>, which is not among the
  source files: \<open>hostnames()\<close>, \<open>agent_threads()\<close> and
  \<open>topology_device_file(hostname)\<close>, the cache file of a host. \<open>polling_interval\<close>
  is the setting of that name in section \<open>main\<close> of the configuration.
\<close>

record server_config =
  hostnames :: "hostname list"
  agent_threads :: nat
  polling_interval :: nat
  topology_device_file :: "hostname \<Rightarrow> path"

text \<open>
  The collaborators of a host's task, by hostname: the parameters that
  \<open>snmp_manager.Validate(...).credentials()\<close> returns; the text
  \<open>general.dict2yaml(snmp_info.Query(...).everything())\<close> or the exception raised on
  the way; the directory \<open>tempfile.mkdtemp()\<close> creates; the number of characters the
  disk takes before \<open>write\<close> raises, if it does; the exception of \<open>os.rename\<close>, if
  any. \<open>interact\<close> is the exception that the constructor
  \<open>snmp_manager.Interact(snmp_params)\<close> raises for the parameters it is given, if
  any.
\<close>

record collaborators =
  credentials :: "hostname \<Rightarrow> yval"
  interact :: "yval \<Rightarrow> pyerror option"
  everything :: "hostname \<Rightarrow> pyerror + string"
  mkdtemp :: "hostname \<Rightarrow> string"
  disk_write :: "hostname \<Rightarrow> nat option"
  os_rename :: "hostname \<Rightarrow> pyerror option"

text \<open>\<open>bool(x)\<close>: null, \<open>False\<close>, zero and the empty string, list and dict are false.\<close>

fun py_bool :: "yval \<Rightarrow> bool" where
  "py_bool YNull = False"
| "py_bool (YBool b) = b"
| "py_bool (YInt i) = (i \<noteq> 0)"
| "py_bool (YStr s) = (s \<noteq> [])"
| "py_bool (YList xs) = (xs \<noteq> [])"
| "py_bool (YDict d) = (d \<noteq> [])"

definition log2info :: "nat \<Rightarrow> string \<Rightarrow> world \<Rightarrow> world" where
  "log2info code log_message w = w\<lparr>logged := logged w @ [(code, log_message)]\<rparr>"

definition agent_sleep :: "string \<Rightarrow> nat \<Rightarrow> world \<Rightarrow> world" where
  "agent_sleep name seconds w = w\<lparr>sleeps := sleeps w @ [(name, seconds)]\<rparr>"

text \<open>
  \<open>Poller._create_yaml\<close>, statement by statement: the list holds the world before
  the call and after every statement that changes it, in order, so a process that
  looks at the file system while the task runs, or after the task was stopped at any
  point, sees one of them. The text reaches the scratch file character by character,
  which covers every way the write may be split. The second component is the
  exception that ends the call, if any. Renaming a file to itself changes nothing.
\<close>

definition create_yaml_states ::
  "server_config \<Rightarrow> collaborators \<Rightarrow> hostname \<Rightarrow> world \<Rightarrow> world list \<times> pyerror option" where
  "create_yaml_states config env hostname w0 =
     (let temp_dir = mkdtemp env hostname;
          w1 = w0\<lparr>dirs := insert temp_dir (dirs w0)\<rparr>;
          temp_file = (temp_dir, hostname @ ''.yaml'');
          perm_file = topology_device_file config hostname;
          w2 = log2info 1125 (''Querying topology data from host '' @ hostname @ ''.'') w1
      in case everything env hostname of
           Inl e \<Rightarrow> ([w0, w1, w2], Some e)
         | Inr yaml_string \<Rightarrow>
             (let n = (case disk_write env hostname of
                         None \<Rightarrow> length yaml_string
                       | Some m \<Rightarrow> min m (length yaml_string));
                  writing = map (\<lambda>k. w2\<lparr>files := (files w2)(temp_file \<mapsto> take k yaml_string)\<rparr>)
                                [0 ..< Suc n]
              in if n < length yaml_string then ([w0, w1, w2] @ writing, Some OSError)
                 else
                   (let w3 = w2\<lparr>files := (files w2)(temp_file \<mapsto> yaml_string)\<rparr>;
                        w4 = log2info 1019
                               (''Completed topology query from host '' @ hostname @ ''.'') w3
                    in case os_rename env hostname of
                         Some e \<Rightarrow> ([w0, w1, w2] @ writing @ [w4], Some e)
                       | None \<Rightarrow>
                           (let w5 = (if temp_file = perm_file then w4
                                      else w4\<lparr>files := (files w4)
                                             (perm_file := files w4 temp_file, temp_file := None)\<rparr>);
                                w6 = w5\<lparr>dirs := dirs w5 - {temp_dir}\<rparr>
                            in ([w0, w1, w2] @ writing @ [w4, w5, w6], None)))))"

definition create_yaml ::
  "server_config \<Rightarrow> collaborators \<Rightarrow> hostname \<Rightarrow> world \<Rightarrow> pyerror + world" where
  "create_yaml config env hostname w =
     (case create_yaml_states config env hostname w of
        (ws, Some e) \<Rightarrow> Inl e
      | (ws, None) \<Rightarrow> Inr (last ws))"

text \<open>
  \<open>Poller.__init__\<close>: the credentials of the host are resolved and handed to
  \<open>snmp_manager.Interact\<close>, whatever they are; an exception of that constructor
  leaves \<open>__init__\<close>, and no poller is built.
\<close>

record poller =
  poller_hostname :: hostname
  snmp_params :: yval

definition Poller_init :: "collaborators \<Rightarrow> hostname \<Rightarrow> pyerror + poller" where
  "Poller_init env hostname =
     (let snmp_params = credentials env hostname
      in case interact env snmp_params of
           Some e \<Rightarrow> Inl e
         | None \<Rightarrow> Inr \<lparr> poller_hostname = hostname, snmp_params = snmp_params \<rparr>)"

text \<open>\<open>Poller.query\<close>, and \<open>poll_single_device\<close>, which builds the poller and calls it.\<close>

definition Poller_query ::
  "server_config \<Rightarrow> collaborators \<Rightarrow> poller \<Rightarrow> world \<Rightarrow> pyerror + world" where
  "Poller_query config env self w =
     (if py_bool (snmp_params self) = True then create_yaml config env (poller_hostname self) w
      else Inr (log2info 1021
                  (''Uncontactable host '' @ poller_hostname self
                     @ '' or no valid SNMP credentials found for it.'') w))"

definition poll_single_device ::
  "server_config \<Rightarrow> collaborators \<Rightarrow> hostname \<Rightarrow> world \<Rightarrow> pyerror + world" where
  "poll_single_device config env hostname w =
     (case Poller_init env hostname of
        Inl e \<Rightarrow> Inl e
      | Inr poller \<Rightarrow> Poller_query config env poller w)"

text \<open>
  \<open>poll_devices\<close>. \<open>Pool(processes=0)\<close> raises a ValueError. \<open>pool.map\<close> hands every
  hostname to \<open>poll_single_device\<close> in a worker process and raises in the caller the
  exception of a task that raised. The tasks meet only in the file system and the
  log; the model runs them in the order of the list and ends the call with the
  first exception.
\<close>

definition poll_devices ::
  "server_config \<Rightarrow> collaborators \<Rightarrow> world \<Rightarrow> pyerror + world" where
  "poll_devices config env w =
     (let threads_in_pool = agent_threads config;
          hostnames = hostnames config
      in if threads_in_pool = 0 then Inl ValueError
         else for_each (poll_single_device config env) hostnames w)"

text \<open>
  \<open>PollingAgent.query\<close>: \<open>while True\<close> has no exit, so the first argument counts the
  turns of the loop that are observed; an exception of \<open>poll_devices\<close> leaves the
  loop, as nothing catches it.
\<close>

fun query_loop ::
  "nat \<Rightarrow> nat \<Rightarrow> server_config \<Rightarrow> collaborators \<Rightarrow> world \<Rightarrow> pyerror + world" where
  "query_loop 0 delay config env w = Inr w"
| "query_loop (Suc n) delay config env w =
     (case poll_devices config env w of
        Inl e \<Rightarrow> Inl e
      | Inr w' \<Rightarrow> query_loop n delay config env (agent_sleep ''topology'' delay w'))"

definition PollingAgent_query ::
  "nat \<Rightarrow> server_config \<Rightarrow> collaborators \<Rightarrow> world \<Rightarrow> pyerror + world" where
  "PollingAgent_query turns config env w = (let delay = 3600 in query_loop turns delay config env w)"

section \<open>Observations used to state the properties of configuration resolution\<close>

text \<open>
  The fragments the properties speak of: section \<open>main\<close> is a dict whose only list
  is \<open>hostnames\<close>, a list of strings, and whose other values do not replace
  \<open>hostnames\<close>; \<open>snmp_groups\<close> is a list of dicts that each have a string under
  \<open>group_name\<close>; any other key of the top level holds a scalar.
\<close>

fun is_str :: "yval \<Rightarrow> bool" where
  "is_str (YStr s) = True"
| "is_str _ = False"

definition is_group :: "yval \<Rightarrow> bool" where
  "is_group g = (case subscript g ''group_name'' of Inr (YStr s) \<Rightarrow> True | _ \<Rightarrow> False)"

definition wf_sub_key :: "string \<times> yval \<Rightarrow> bool" where
  "wf_sub_key kv =
     (case snd kv of
        YList found \<Rightarrow> fst kv = ''hostnames'' \<and> list_all is_str found
      | _ \<Rightarrow> fst kv \<noteq> ''hostnames'')"

definition wf_file_key :: "string \<times> yval \<Rightarrow> bool" where
  "wf_file_key kv =
     (case snd kv of
        YDict file_value \<Rightarrow> fst kv = ''main'' \<and> list_all wf_sub_key file_value
      | YList file_value \<Rightarrow> fst kv = ''snmp_groups'' \<and> list_all is_group file_value
      | _ \<Rightarrow> True)"

definition wf_directory_dict :: "yval pydict \<Rightarrow> bool" where
  "wf_directory_dict directory_dict = list_all wf_file_key directory_dict"

text \<open>
  The hostnames and the groups that the fragments list, in the order in which the
  loops of \<open>__init__\<close> meet them.
\<close>

definition sub_hostnames :: "yval pydict \<Rightarrow> yval list" where
  "sub_hostnames file_value =
     concat (map (\<lambda>kv. case snd kv of
                          YList found \<Rightarrow> if fst kv = ''hostnames'' then found else []
                        | _ \<Rightarrow> [])
                 file_value)"

definition found_hostnames :: "yval pydict \<Rightarrow> yval list" where
  "found_hostnames directory_dict =
     concat (map (\<lambda>kv. case snd kv of YDict file_value \<Rightarrow> sub_hostnames file_value | _ \<Rightarrow> [])
                 directory_dict)"

definition found_groups :: "yval pydict \<Rightarrow> yval list" where
  "found_groups directory_dict =
     concat (map (\<lambda>kv. case snd kv of YList file_value \<Rightarrow> file_value | _ \<Rightarrow> []) directory_dict)"

text \<open>
  The words of the specification for a merged list: every entry once, in the order
  of its first appearance.
\<close>

fun first_appearance :: "'a list \<Rightarrow> 'a list" where
  "first_appearance [] = []"
| "first_appearance (x # xs) = x # first_appearance (filter (\<lambda>y. y \<noteq> x) xs)"

text \<open>One turn of each of the two merging loops, on plain lists.\<close>

definition keep_new :: "yval \<Rightarrow> yval list \<Rightarrow> yval list" where
  "keep_new h xs = (if h \<in> set xs then xs else xs @ [h])"

definition group_name :: "yval \<Rightarrow> pyerror + yval" where
  "group_name g = subscript g ''group_name''"

definition keep_group :: "yval \<Rightarrow> yval list \<Rightarrow> yval list" where
  "keep_group g gs = (if group_name g \<in> set (map group_name gs) then gs else gs @ [g])"

section \<open>Properties of the search route\<close>

lemma dict_get_dict_set:
  "dict_get (dict_set d k v) k' = (if k' = k then Some v else dict_get d k')"
  by (induction d) (auto simp: dict_get_def)

lemma dict_get_add_match:
  "dict_get (add_match (k, i) dv) h =
     (if h = k then Some ((case dict_get dv h of None \<Rightarrow> [] | Some l \<Rightarrow> l) @ [i])
      else dict_get dv h)"
  by (auto simp: dict_get_dict_set split: option.splits)

lemma dict_get_fold_add_match:
  "dict_get (fold add_match item dv) h =
     (if map snd (filter (\<lambda>kv. fst kv = h) item) = [] then dict_get dv h
      else Some ((case dict_get dv h of None \<Rightarrow> [] | Some l \<Rightarrow> l)
                   @ map snd (filter (\<lambda>kv. fst kv = h) item)))"
proof (induction item arbitrary: dv)
  case Nil
  then show ?case by simp
next
  case (Cons a item)
  obtain k i where a: "a = (k, i)" by (cases a)
  show ?case
    unfolding a fold_simps Cons.IH dict_get_add_match
    by (auto split: option.splits)
qed

lemma dict_get_accumulate:
  "dict_get (accumulate result dv) h =
     (if map snd (filter (\<lambda>kv. fst kv = h) (concat result)) = [] then dict_get dv h
      else Some ((case dict_get dv h of None \<Rightarrow> [] | Some l \<Rightarrow> l)
                   @ map snd (filter (\<lambda>kv. fst kv = h) (concat result))))"
  unfolding accumulate_def
proof (induction result arbitrary: dv)
  case Nil
  then show ?case by simp
next
  case (Cons item result)
  show ?case
    unfolding fold_simps Cons.IH dict_get_fold_add_match
    by (auto split: option.splits)
qed

lemma index_single:
  "index search ports [(''search_term'', v)] =
     \<lparr> devices = accumulate (fst (search (strip v))) [],
       devices_tables =
         (if accumulate (fst (search (strip v))) [] \<noteq> []
          then map (\<lambda>(hostname, ifindexes). (hostname, Inr (ports hostname ifindexes)))
                 (sort_key fst (accumulate (fst (search (strip v))) []))
          else [(''Not Found'', Inl ''<h3>&nbsp;Please try again ...</h3>'')]),
       scans = snd (search (strip v)) \<rparr>"
  by (simp add: index_def index_item_def Let_def)

lemma strip_blank: "(\<forall>c\<in>set v. isspace c) \<Longrightarrow> strip v = []"
proof -
  assume "\<forall>c\<in>set v. isspace c"
  then have d: "dropWhile isspace v = []" by (induction v) auto
  show ?thesis unfolding strip_def d by simp
qed

lemma strip_empty_iff: "strip v = [] \<longleftrightarrow> (\<forall>c\<in>set v. isspace c)"
proof
  assume e: "strip v = []"
  show "\<forall>c\<in>set v. isspace c"
  proof (cases "dropWhile isspace v")
    case Nil
    then show ?thesis by (metis dropWhile_eq_Nil_conv)
  next
    case (Cons a as)
    then have "\<not> isspace (hd (dropWhile isspace v))" by (metis hd_dropWhile list.distinct(1))
    moreover from e have "\<forall>x\<in>set (dropWhile isspace v). isspace x"
      unfolding strip_def by (metis dropWhile_eq_Nil_conv rev_is_Nil_conv set_rev)
    ultimately show ?thesis using Cons by simp
  qed
qed (rule strip_blank)







text \<open>
  C7, as stated, fails: when the search yields interface 3 of \<open>switch1\<close> twice, the
  list of \<open>switch1\<close> in \<open>devices\<close> is \<open>[3, 3]\<close>.
\<close>

theorem duplicate_ifindex_kept_counterexample:
  "devices (index (\<lambda>term. ([[(''switch1'', 3)], [(''switch1'', 3)]], 1)) (\<lambda>h is. ())
              [(''search_term'', ''uplink'')])
     = [(''switch1'', [3, 3])]
   \<and> \<not> distinct [3, 3 :: int]"
  by (simp add: index_single accumulate_def dict_get_def)

text \<open>
  C7, amended: the list of a host in \<open>devices\<close> holds every interface index that the
  search yields for that host, in the order in which they are yielded, duplicates
  included; a host for which nothing is yielded has no entry.
\<close>

theorem devices_hold_every_match_in_order:
  "dict_get (devices (index search ports [(''search_term'', v)])) h =
     (if map snd (filter (\<lambda>kv. fst kv = h) (concat (fst (search (strip v))))) = [] then None
      else Some (map snd (filter (\<lambda>kv. fst kv = h) (concat (fst (search (strip v)))))))"
  by (simp add: index_single dict_get_accumulate) (simp add: dict_get_def)

theorem devices_hold_every_match_in_order_witness:
  "dict_get (devices (index (\<lambda>term. ([[(''switch1'', 3)], [(''switch2'', 7)], [(''switch1'', 3)]], 1))
                        (\<lambda>h is. ()) [(''search_term'', '' uplink '')])) ''switch1''
     = Some [3, 3]"
  using devices_hold_every_match_in_order
          [of "\<lambda>term. ([[(''switch1'', 3)], [(''switch2'', 7)], [(''switch1'', 3)]], 1)"
              "\<lambda>h is. ()" "'' uplink ''" "''switch1''"]
  by simp

section \<open>Properties of the polling agent\<close>


lemma for_each_raises:
  assumes "x \<in> set xs" and "\<And>s. \<exists>e. body x s = Inl e"
  shows "\<exists>e. for_each body xs s = Inl e"
  using assms(1)
proof (induction xs arbitrary: s)
  case Nil
  then show ?case by simp
next
  case (Cons a xs)
  show ?case
  proof (cases "body a s")
    case (Inl e)
    then show ?thesis by simp
  next
    case (Inr s')
    show ?thesis
    proof (cases "x = a")
      case True
      with assms(2) [of s] Inr show ?thesis by simp
    next
      case False
      with Cons.prems have "x \<in> set xs" by simp
      with Cons.IH [of s'] Inr show ?thesis by simp
    qed
  qed
qed

text \<open>
  C1. The snapshot is written to a file in the directory that \<open>mkdtemp\<close> creates and
  is moved to the cache file by the one \<open>os.rename\<close>. When that scratch file is not
  the cache file itself: the cache file of the host holds, in every world that the
  task passes through (hence also when the task is stopped before the rename),
  either what it held before the task or the complete new text; a task whose
  collection, write and rename succeed returns, with the complete text in the
  cache file, no scratch file, no scratch directory and every other file as it
  was; a task that returns can only have done so; and a task that raises has left
  the cache file as it was throughout.
\<close>

theorem cache_file_is_prior_or_complete:
  assumes "(mkdtemp env h, h @ ''.yaml'') \<noteq> topology_device_file config h"
  shows "(\<forall>s\<in>set (fst (create_yaml_states config env h w)).
            files s (topology_device_file config h) = files w (topology_device_file config h)
          \<or> (\<exists>y. everything env h = Inr y \<and> files s (topology_device_file config h) = Some y))
       \<and> (\<forall>y. everything env h = Inr y
              \<and> (case disk_write env h of None \<Rightarrow> True | Some m \<Rightarrow> length y \<le> m)
              \<and> os_rename env h = None \<longrightarrow>
            (\<exists>w'. create_yaml config env h w = Inr w'
                \<and> w' = last (fst (create_yaml_states config env h w))
                \<and> files w' (topology_device_file config h) = Some y
                \<and> files w' (mkdtemp env h, h @ ''.yaml'') = None
                \<and> mkdtemp env h \<notin> dirs w'
                \<and> (\<forall>p. p \<noteq> topology_device_file config h \<and> p \<noteq> (mkdtemp env h, h @ ''.yaml'')
                       \<longrightarrow> files w' p = files w p)))
       \<and> (\<forall>w'. create_yaml config env h w = Inr w' \<longrightarrow>
            (\<exists>y. everything env h = Inr y \<and> files w' (topology_device_file config h) = Some y)
          \<and> files w' (mkdtemp env h, h @ ''.yaml'') = None
          \<and> mkdtemp env h \<notin> dirs w')
       \<and> (\<forall>e. create_yaml config env h w = Inl e \<longrightarrow>
            (\<forall>s\<in>set (fst (create_yaml_states config env h w)).
               files s (topology_device_file config h) = files w (topology_device_file config h)))"
proof (intro conjI ballI allI impI)
  fix s
  assume "s \<in> set (fst (create_yaml_states config env h w))"
  with assms
  show "files s (topology_device_file config h) = files w (topology_device_file config h)
      \<or> (\<exists>y. everything env h = Inr y \<and> files s (topology_device_file config h) = Some y)"
    by (auto simp: create_yaml_states_def Let_def log2info_def
             split: sum.splits option.splits if_splits)
next
  fix y
  assume ok: "everything env h = Inr y
      \<and> (case disk_write env h of None \<Rightarrow> True | Some m \<Rightarrow> length y \<le> m)
      \<and> os_rename env h = None"
  then have n: "(case disk_write env h of None \<Rightarrow> length y | Some m \<Rightarrow> min m (length y)) = length y"
    by (auto split: option.splits)
  let ?w' = "last (fst (create_yaml_states config env h w))"
  have r: "create_yaml config env h w = Inr ?w'"
    using ok n by (simp add: create_yaml_def create_yaml_states_def Let_def)
  have f: "files ?w' (topology_device_file config h) = Some y"
    using ok n assms by (simp add: create_yaml_states_def Let_def log2info_def)
  have t: "files ?w' (mkdtemp env h, h @ ''.yaml'') = None"
    using ok n assms by (simp add: create_yaml_states_def Let_def log2info_def)
  have d: "mkdtemp env h \<notin> dirs ?w'"
    using ok n assms by (simp add: create_yaml_states_def Let_def log2info_def)
  have o: "\<forall>p. p \<noteq> topology_device_file config h \<and> p \<noteq> (mkdtemp env h, h @ ''.yaml'')
             \<longrightarrow> files ?w' p = files w p"
    using ok n assms by (simp add: create_yaml_states_def Let_def log2info_def)
  from r f t d o
  show "\<exists>w'. create_yaml config env h w = Inr w'
          \<and> w' = last (fst (create_yaml_states config env h w))
          \<and> files w' (topology_device_file config h) = Some y
          \<and> files w' (mkdtemp env h, h @ ''.yaml'') = None
          \<and> mkdtemp env h \<notin> dirs w'
          \<and> (\<forall>p. p \<noteq> topology_device_file config h \<and> p \<noteq> (mkdtemp env h, h @ ''.yaml'')
                 \<longrightarrow> files w' p = files w p)"
    by blast
next
  fix w'
  assume r: "create_yaml config env h w = Inr w'"
  with assms
  show "\<exists>y. everything env h = Inr y \<and> files w' (topology_device_file config h) = Some y"
    by (auto simp: create_yaml_def create_yaml_states_def Let_def log2info_def
             split: sum.splits option.splits if_splits)
  from assms r show "files w' (mkdtemp env h, h @ ''.yaml'') = None"
    by (auto simp: create_yaml_def create_yaml_states_def Let_def log2info_def
             split: sum.splits option.splits if_splits)
  from assms r show "mkdtemp env h \<notin> dirs w'"
    by (auto simp: create_yaml_def create_yaml_states_def Let_def log2info_def
             split: sum.splits option.splits if_splits)
next
  fix e s
  assume "create_yaml config env h w = Inl e"
    and "s \<in> set (fst (create_yaml_states config env h w))"
  with assms
  show "files s (topology_device_file config h) = files w (topology_device_file config h)"
    by (auto simp: create_yaml_def create_yaml_states_def Let_def log2info_def
             split: sum.splits option.splits if_splits)
qed

theorem cache_file_is_prior_or_complete_witness:
  "(mkdtemp \<lparr>credentials = (\<lambda>h. YDict [(''snmp_version'', YInt 2)]),
             interact = (\<lambda>p. None),
             everything = (\<lambda>h. Inr ''ab''), mkdtemp = (\<lambda>h. ''/tmp/tmpq0''),
             disk_write = (\<lambda>h. None), os_rename = (\<lambda>h. None)\<rparr> ''sw1'', ''sw1'' @ ''.yaml'')
     \<noteq> topology_device_file
          \<lparr>hostnames = [''sw1''], agent_threads = 20, polling_interval = 3600,
           topology_device_file = (\<lambda>h. (''/cache'', h @ ''.yaml''))\<rparr> ''sw1''
   \<and> map (\<lambda>s. files s (''/cache'', ''sw1.yaml''))
        (fst (create_yaml_states
               \<lparr>hostnames = [''sw1''], agent_threads = 20, polling_interval = 3600,
                topology_device_file = (\<lambda>h. (''/cache'', h @ ''.yaml''))\<rparr>
               \<lparr>credentials = (\<lambda>h. YDict [(''snmp_version'', YInt 2)]),
                interact = (\<lambda>p. None),
                everything = (\<lambda>h. Inr ''ab''), mkdtemp = (\<lambda>h. ''/tmp/tmpq0''),
                disk_write = (\<lambda>h. None), os_rename = (\<lambda>h. None)\<rparr>
               ''sw1''
               \<lparr>dirs = {''/cache''},
                files = (\<lambda>p. if p = (''/cache'', ''sw1.yaml'') then Some ''old'' else None),
                logged = [], sleeps = []\<rparr>))
     = [Some ''old'', Some ''old'', Some ''old'', Some ''old'', Some ''old'', Some ''old'',
        Some ''old'', Some ''ab'', Some ''ab'']
   \<and> (\<exists>w'. create_yaml
               \<lparr>hostnames = [''sw1''], agent_threads = 20, polling_interval = 3600,
                topology_device_file = (\<lambda>h. (''/cache'', h @ ''.yaml''))\<rparr>
               \<lparr>credentials = (\<lambda>h. YDict [(''snmp_version'', YInt 2)]),
                interact = (\<lambda>p. None),
                everything = (\<lambda>h. Inr ''ab''), mkdtemp = (\<lambda>h. ''/tmp/tmpq0''),
                disk_write = (\<lambda>h. None), os_rename = (\<lambda>h. None)\<rparr>
               ''sw1''
               \<lparr>dirs = {''/cache''},
                files = (\<lambda>p. if p = (''/cache'', ''sw1.yaml'') then Some ''old'' else None),
                logged = [], sleeps = []\<rparr> = Inr w'
          \<and> files w' (''/cache'', ''sw1.yaml'') = Some ''ab''
          \<and> files w' (''/tmp/tmpq0'', ''sw1.yaml'') = None
          \<and> dirs w' = {''/cache''})"
proof -
  let ?env = "\<lparr>credentials = (\<lambda>h. YDict [(''snmp_version'', YInt 2)]),
             interact = (\<lambda>p. None),
             everything = (\<lambda>h. Inr ''ab''), mkdtemp = (\<lambda>h. ''/tmp/tmpq0''),
             disk_write = (\<lambda>h. None), os_rename = (\<lambda>h. None)\<rparr>"
  let ?config = "\<lparr>hostnames = [''sw1''], agent_threads = 20, polling_interval = 3600,
           topology_device_file = (\<lambda>h. (''/cache'', h @ ''.yaml''))\<rparr>"
  let ?w = "\<lparr>dirs = {''/cache''},
                files = (\<lambda>p. if p = (''/cache'', ''sw1.yaml'') then Some ''old'' else None),
                logged = [], sleeps = []\<rparr>"
  have h: "(mkdtemp ?env ''sw1'', ''sw1'' @ ''.yaml'') \<noteq> topology_device_file ?config ''sw1''"
    by simp
  have run: "map (\<lambda>s. files s (''/cache'', ''sw1.yaml''))
        (fst (create_yaml_states ?config ?env ''sw1'' ?w))
     = [Some ''old'', Some ''old'', Some ''old'', Some ''old'', Some ''old'', Some ''old'',
        Some ''old'', Some ''ab'', Some ''ab'']"
    by (simp add: create_yaml_states_def Let_def log2info_def upt_rec)
  have fin: "\<exists>w'. create_yaml ?config ?env ''sw1'' ?w = Inr w'
          \<and> files w' (''/cache'', ''sw1.yaml'') = Some ''ab''
          \<and> files w' (''/tmp/tmpq0'', ''sw1.yaml'') = None
          \<and> dirs w' = {''/cache''}"
    by (simp add: create_yaml_def create_yaml_states_def Let_def log2info_def)
  show ?thesis
    using h run fin cache_file_is_prior_or_complete [OF h, of ?w] by blast
qed

text \<open>
  C4, as stated, fails: nothing in \<open>poll_single_device\<close>, \<open>Poller\<close> or \<open>poll_devices\<close>
  catches an exception. With the one host \<open>sw1\<close>, whose collection raises, the task
  raises, \<open>poll_devices\<close> raises, and so does the loop of \<open>PollingAgent.query\<close>.
\<close>

theorem collection_failure_aborts_cycle_counterexample:
  "poll_single_device
     \<lparr>hostnames = [''sw1''], agent_threads = 20, polling_interval = 3600,
      topology_device_file = (\<lambda>h. (''/cache'', h @ ''.yaml''))\<rparr>
     \<lparr>credentials = (\<lambda>h. YDict [(''snmp_version'', YInt 2)]),
      interact = (\<lambda>p. None), everything = (\<lambda>h. Inl SnmpError), mkdtemp = (\<lambda>h. ''/tmp/tmpq0''),
      disk_write = (\<lambda>h. None), os_rename = (\<lambda>h. None)\<rparr>
     ''sw1''
     \<lparr>dirs = {''/cache''}, files = (\<lambda>p. None), logged = [], sleeps = []\<rparr>
     = Inl SnmpError
   \<and> poll_devices
     \<lparr>hostnames = [''sw1''], agent_threads = 20, polling_interval = 3600,
      topology_device_file = (\<lambda>h. (''/cache'', h @ ''.yaml''))\<rparr>
     \<lparr>credentials = (\<lambda>h. YDict [(''snmp_version'', YInt 2)]),
      interact = (\<lambda>p. None), everything = (\<lambda>h. Inl SnmpError), mkdtemp = (\<lambda>h. ''/tmp/tmpq0''),
      disk_write = (\<lambda>h. None), os_rename = (\<lambda>h. None)\<rparr>
     \<lparr>dirs = {''/cache''}, files = (\<lambda>p. None), logged = [], sleeps = []\<rparr>
     = Inl SnmpError
   \<and> PollingAgent_query 1
     \<lparr>hostnames = [''sw1''], agent_threads = 20, polling_interval = 3600,
      topology_device_file = (\<lambda>h. (''/cache'', h @ ''.yaml''))\<rparr>
     \<lparr>credentials = (\<lambda>h. YDict [(''snmp_version'', YInt 2)]),
      interact = (\<lambda>p. None), everything = (\<lambda>h. Inl SnmpError), mkdtemp = (\<lambda>h. ''/tmp/tmpq0''),
      disk_write = (\<lambda>h. None), os_rename = (\<lambda>h. None)\<rparr>
     \<lparr>dirs = {''/cache''}, files = (\<lambda>p. None), logged = [], sleeps = []\<rparr>
     = Inl SnmpError"
  by (simp add: PollingAgent_query_def poll_devices_def poll_single_device_def Poller_init_def
        Poller_query_def create_yaml_def create_yaml_states_def Let_def)

text \<open>
  C4, amended: for every cycle and every host in it that has working credentials, a
  failure of snapshot collection (\<open>everything\<close> raises) or of cache persistence (the
  write is cut short, or \<open>os.rename\<close> raises) is not caught at the boundary of the
  host's task: the task raises, and \<open>poll_devices\<close> raises in turn, so the cycle ends
  with an exception.
\<close>

theorem host_failure_raises_out_of_cycle:
  assumes "h \<in> set (hostnames config)"
    and "py_bool (credentials env h)"
    and "(\<exists>e. everything env h = Inl e)
       \<or> (\<exists>y m. everything env h = Inr y \<and> disk_write env h = Some m \<and> m < length y)
       \<or> (\<exists>e. os_rename env h = Some e)"
  shows "(\<exists>e. poll_single_device config env h w = Inl e)
       \<and> (\<exists>e. poll_devices config env w = Inl e)"
proof -
  have single: "\<exists>e. poll_single_device config env h s = Inl e" for s
    using assms(2,3)
    by (auto simp: poll_single_device_def Poller_init_def Poller_query_def create_yaml_def
          create_yaml_states_def Let_def split: sum.splits option.splits)
  have "\<exists>e. for_each (poll_single_device config env) (hostnames config) w = Inl e"
    using assms(1) single by (rule for_each_raises)
  then have "\<exists>e. poll_devices config env w = Inl e"
    by (simp add: poll_devices_def Let_def)
  with single show ?thesis by blast
qed

theorem host_failure_raises_out_of_cycle_witness:
  "''sw2'' \<in> set (hostnames \<lparr>hostnames = [''sw1'', ''sw2''], agent_threads = 20,
       polling_interval = 3600, topology_device_file = (\<lambda>h. (''/cache'', h @ ''.yaml''))\<rparr>)
   \<and> py_bool (credentials
        \<lparr>credentials = (\<lambda>h. YDict [(''snmp_version'', YInt 2)]),
         interact = (\<lambda>p. None), everything = (\<lambda>h. Inr ''ab''), mkdtemp = (\<lambda>h. ''/tmp/tmpq0''),
         disk_write = (\<lambda>h. None),
         os_rename = (\<lambda>h. if h = ''sw2'' then Some OSError else None)\<rparr> ''sw2'')
   \<and> (\<exists>e. poll_devices
        \<lparr>hostnames = [''sw1'', ''sw2''], agent_threads = 20,
         polling_interval = 3600, topology_device_file = (\<lambda>h. (''/cache'', h @ ''.yaml''))\<rparr>
        \<lparr>credentials = (\<lambda>h. YDict [(''snmp_version'', YInt 2)]),
         interact = (\<lambda>p. None), everything = (\<lambda>h. Inr ''ab''), mkdtemp = (\<lambda>h. ''/tmp/tmpq0''),
         disk_write = (\<lambda>h. None),
         os_rename = (\<lambda>h. if h = ''sw2'' then Some OSError else None)\<rparr>
        \<lparr>dirs = {''/cache''}, files = (\<lambda>p. None), logged = [], sleeps = []\<rparr> = Inl e)"
proof -
  let ?config = "\<lparr>hostnames = [''sw1'', ''sw2''], agent_threads = 20,
       polling_interval = 3600, topology_device_file = (\<lambda>h. (''/cache'', h @ ''.yaml''))\<rparr>"
  let ?env = "\<lparr>credentials = (\<lambda>h. YDict [(''snmp_version'', YInt 2)]),
         interact = (\<lambda>p. None), everything = (\<lambda>h. Inr ''ab''), mkdtemp = (\<lambda>h. ''/tmp/tmpq0''),
         disk_write = (\<lambda>h. None),
         os_rename = (\<lambda>h. if h = ''sw2'' then Some OSError else None)\<rparr>"
  have h1: "''sw2'' \<in> set (hostnames ?config)" by simp
  have h2: "py_bool (credentials ?env ''sw2'')" by simp
  have h3: "(\<exists>e. everything ?env ''sw2'' = Inl e)
       \<or> (\<exists>y m. everything ?env ''sw2'' = Inr y \<and> disk_write ?env ''sw2'' = Some m \<and> m < length y)
       \<or> (\<exists>e. os_rename ?env ''sw2'' = Some e)" by simp
  show ?thesis
    using h1 h2 host_failure_raises_out_of_cycle [OF h1 h2 h3] by blast
qed

lemma poll_single_device_constructor_raises:
  "interact env (credentials env h) = Some e \<Longrightarrow> poll_single_device config env h w = Inl e"
  by (simp add: poll_single_device_def Poller_init_def)



text \<open>
  C8. The configuration asks for an interval of 60 seconds; the loop of
  \<open>PollingAgent.query\<close> sleeps 3600 seconds, the constant that \<open>delay\<close> is set to,
  after the cycle.
\<close>

theorem configured_interval_is_not_used:
  "PollingAgent_query 1
     \<lparr>hostnames = [], agent_threads = 20, polling_interval = 60,
      topology_device_file = (\<lambda>h. (''/cache'', h @ ''.yaml''))\<rparr>
     \<lparr>credentials = (\<lambda>h. YNull), interact = (\<lambda>p. None), everything = (\<lambda>h. Inr ''ab''),
      mkdtemp = (\<lambda>h. ''/tmp/tmpq0''), disk_write = (\<lambda>h. None), os_rename = (\<lambda>h. None)\<rparr>
     \<lparr>dirs = {''/cache''}, files = (\<lambda>p. None), logged = [], sleeps = []\<rparr>
   = Inr \<lparr>dirs = {''/cache''}, files = (\<lambda>p. None), logged = [],
          sleeps = [(''topology'', 3600)]\<rparr>"
  by (simp add: PollingAgent_query_def poll_devices_def agent_sleep_def)

section \<open>Properties of configuration resolution\<close>

subsection \<open>The loop over the found hostnames\<close>

lemma py_eq_YStr: "py_eq e (YStr s) = (e = YStr s)"
  by (cases e) auto

lemma add_hostnames_in:
  "YStr s \<in> set xs \<Longrightarrow>
     add_hostnames (YStr s # found) (YList xs) = add_hostnames found (YList xs)"
  by (simp add: py_eq_YStr list_ex_iff)

lemma add_hostnames_notin:
  "YStr s \<notin> set xs \<Longrightarrow>
     add_hostnames (YStr s # found) (YList xs) = add_hostnames found (YList (xs @ [YStr s]))"
  by (simp add: py_eq_YStr list_ex_iff)

lemma add_hostnames_list:
  "list_all is_str found \<Longrightarrow>
     add_hostnames found (YList xs) = Inr (YList (fold keep_new found xs))"
proof (induction found arbitrary: xs)
  case Nil
  then show ?case by simp
next
  case (Cons a found)
  then obtain s where a: "a = YStr s" by (cases a) auto
  from Cons.prems have rest: "list_all is_str found" by simp
  show ?case
  proof (cases "a \<in> set xs")
    case True
    then show ?thesis
      using Cons.IH [OF rest, of xs] add_hostnames_in [of s xs found]
      by (simp add: a keep_new_def del: add_hostnames.simps)
  next
    case False
    then show ?thesis
      using Cons.IH [OF rest, of "xs @ [a]"] add_hostnames_notin [of s xs found]
      by (simp add: a keep_new_def del: add_hostnames.simps)
  qed
qed

lemma filter_filter_neq:
  "filter (\<lambda>y. y \<noteq> a) (filter (\<lambda>h. h \<notin> set xs) found)
     = filter (\<lambda>h. h \<notin> set (xs @ [a])) found"
  by (induction found) auto

lemma fold_keep_new:
  "fold keep_new found xs = xs @ first_appearance (filter (\<lambda>h. h \<notin> set xs) found)"
proof (induction found arbitrary: xs)
  case Nil
  then show ?case by simp
next
  case (Cons a found)
  show ?case
  proof (cases "a \<in> set xs")
    case True
    then show ?thesis using Cons.IH [of xs] by (simp add: keep_new_def)
  next
    case False
    then show ?thesis
      using Cons.IH [of "xs @ [a]"] filter_filter_neq [of a xs found]
      by (simp add: keep_new_def)
  qed
qed

lemma first_appearance_set: "set (first_appearance xs) = set xs"
proof (induction xs rule: first_appearance.induct)
  case 1
  then show ?case by simp
next
  case (2 x xs)
  then show ?case by auto
qed

lemma first_appearance_distinct: "distinct (first_appearance xs)"
proof (induction xs rule: first_appearance.induct)
  case 1
  then show ?case by simp
next
  case (2 x xs)
  then show ?case by (simp add: first_appearance_set)
qed

subsection \<open>The loop over the found groups\<close>

lemma is_group_name: "is_group g \<Longrightarrow> \<exists>s. group_name g = Inr (YStr s)"
  by (auto simp: is_group_def group_name_def split: sum.splits yval.splits)

lemma snmp_group_found_loop_groups:
  assumes "is_group item" and "list_all is_group listing"
  shows "snmp_group_found_loop item listing found
           = Inr (found \<or> group_name item \<in> set (map group_name listing))"
  using assms(2)
proof (induction listing arbitrary: found)
  case Nil
  then show ?case by simp
next
  case (Cons next_item listing)
  from assms(1) obtain b where b: "subscript item ''group_name'' = Inr (YStr b)"
    using is_group_name unfolding group_name_def by blast
  from Cons.prems obtain a where a: "subscript next_item ''group_name'' = Inr (YStr a)"
    using is_group_name [of next_item] unfolding group_name_def by auto
  from Cons.prems have rest: "list_all is_group listing" by simp
  show ?case
    using Cons.IH [OF rest] a b
    by (auto simp: group_name_def py_eq_YStr)
qed

lemma add_snmp_group_groups:
  assumes "is_group item" and "list_all is_group (snmp_groups cfg)"
  shows "add_snmp_group item cfg = Inr (cfg\<lparr>snmp_groups := keep_group item (snmp_groups cfg)\<rparr>)"
  using snmp_group_found_loop_groups [OF assms, of False]
  by (simp add: add_snmp_group_def snmp_group_found_def keep_group_def)

lemma keep_group_groups:
  "is_group g \<Longrightarrow> list_all is_group gs \<Longrightarrow> list_all is_group (keep_group g gs)"
  by (simp add: keep_group_def)

lemma for_each_add_snmp_group:
  assumes "list_all is_group items" and "list_all is_group (snmp_groups cfg)"
  shows "for_each add_snmp_group items cfg
           = Inr (cfg\<lparr>snmp_groups := fold keep_group items (snmp_groups cfg)\<rparr>)"
  using assms
proof (induction items arbitrary: cfg)
  case Nil
  then show ?case by simp
next
  case (Cons g items)
  from Cons.prems have g: "is_group g" and rest: "list_all is_group items" by simp_all
  let ?cfg = "cfg\<lparr>snmp_groups := keep_group g (snmp_groups cfg)\<rparr>"
  have "list_all is_group (snmp_groups ?cfg)"
    using keep_group_groups [OF g Cons.prems(2)] by simp
  from Cons.IH [OF rest this] add_snmp_group_groups [OF g Cons.prems(2)]
  show ?case by simp
qed

lemma fold_keep_group_groups:
  "list_all is_group items \<Longrightarrow> list_all is_group gs \<Longrightarrow> list_all is_group (fold keep_group items gs)"
  by (induction items arbitrary: gs) (simp_all add: keep_group_groups)

subsection \<open>The loops over the sub keys and over the keys of the top level\<close>

lemma merge_sub_key_main:
  assumes "wf_sub_key kv" and "dict_get (main cfg) ''hostnames'' = Some (YList xs)"
  shows "\<exists>cfg'. merge_sub_key ''main'' kv cfg = Inr cfg'
           \<and> dict_get (main cfg') ''hostnames'' = Some (YList (fold keep_new (sub_hostnames [kv]) xs))
           \<and> snmp_groups cfg' = snmp_groups cfg"
proof (cases "snd kv")
  case (YList found)
  with assms(1) have k: "fst kv = ''hostnames''" and s: "list_all is_str found"
    by (simp_all add: wf_sub_key_def)
  have sub: "config_sub_item cfg ''main'' ''hostnames'' = Inr (YList xs)"
    using assms(2) by (simp add: config_sub_item_def config_item_def)
  show ?thesis
    using YList k sub add_hostnames_list [OF s, of xs]
    by (simp add: merge_sub_key_def sub_hostnames_def dict_get_dict_set)
next
  case YNull
  with assms show ?thesis
    by (simp add: merge_sub_key_def wf_sub_key_def config_item_def sub_hostnames_def
          dict_get_dict_set)
next
  case (YBool b)
  with assms show ?thesis
    by (simp add: merge_sub_key_def wf_sub_key_def config_item_def sub_hostnames_def
          dict_get_dict_set)
next
  case (YInt i)
  with assms show ?thesis
    by (simp add: merge_sub_key_def wf_sub_key_def config_item_def sub_hostnames_def
          dict_get_dict_set)
next
  case (YStr s)
  with assms show ?thesis
    by (simp add: merge_sub_key_def wf_sub_key_def config_item_def sub_hostnames_def
          dict_get_dict_set)
next
  case (YDict d)
  with assms show ?thesis
    by (simp add: merge_sub_key_def wf_sub_key_def config_item_def sub_hostnames_def
          dict_get_dict_set)
qed

lemma sub_hostnames_Cons: "sub_hostnames (kv # d) = sub_hostnames [kv] @ sub_hostnames d"
  by (simp add: sub_hostnames_def)

lemma for_each_merge_sub_key_main:
  assumes "list_all wf_sub_key d" and "dict_get (main cfg) ''hostnames'' = Some (YList xs)"
  shows "\<exists>cfg'. for_each (merge_sub_key ''main'') d cfg = Inr cfg'
           \<and> dict_get (main cfg') ''hostnames'' = Some (YList (fold keep_new (sub_hostnames d) xs))
           \<and> snmp_groups cfg' = snmp_groups cfg"
  using assms
proof (induction d arbitrary: cfg xs)
  case Nil
  then show ?case by (simp add: sub_hostnames_def)
next
  case (Cons kv d)
  from Cons.prems have kv: "wf_sub_key kv" and rest: "list_all wf_sub_key d" by simp_all
  from merge_sub_key_main [OF kv Cons.prems(2)]
  obtain cfg1 where 1: "merge_sub_key ''main'' kv cfg = Inr cfg1"
    and h1: "dict_get (main cfg1) ''hostnames'' = Some (YList (fold keep_new (sub_hostnames [kv]) xs))"
    and g1: "snmp_groups cfg1 = snmp_groups cfg" by blast
  from Cons.IH [OF rest h1]
  obtain cfg2 where 2: "for_each (merge_sub_key ''main'') d cfg1 = Inr cfg2"
    and h2: "dict_get (main cfg2) ''hostnames''
               = Some (YList (fold keep_new (sub_hostnames d) (fold keep_new (sub_hostnames [kv]) xs)))"
    and g2: "snmp_groups cfg2 = snmp_groups cfg1" by blast
  have "fold keep_new (sub_hostnames (kv # d)) xs
          = fold keep_new (sub_hostnames d) (fold keep_new (sub_hostnames [kv]) xs)"
    by (simp only: sub_hostnames_Cons [of kv d] fold_append comp_apply)
  with 1 2 h2 g1 g2 show ?case by simp
qed

lemma merge_file_key_wf:
  assumes "wf_file_key kv" and "dict_get (main cfg) ''hostnames'' = Some (YList xs)"
    and "list_all is_group (snmp_groups cfg)"
  shows "\<exists>cfg'. merge_file_key kv cfg = Inr cfg'
           \<and> dict_get (main cfg') ''hostnames''
               = Some (YList (fold keep_new (found_hostnames [kv]) xs))
           \<and> snmp_groups cfg' = fold keep_group (found_groups [kv]) (snmp_groups cfg)"
proof (cases "snd kv")
  case (YDict file_value)
  with assms(1) have k: "fst kv = ''main''" and w: "list_all wf_sub_key file_value"
    by (simp_all add: wf_file_key_def)
  from for_each_merge_sub_key_main [OF w assms(2)] YDict k show ?thesis
    by (simp add: merge_file_key_def found_hostnames_def found_groups_def)
next
  case (YList file_value)
  with assms(1) have k: "fst kv = ''snmp_groups''" and w: "list_all is_group file_value"
    by (simp_all add: wf_file_key_def)
  from for_each_add_snmp_group [OF w assms(3)] YList k assms(2) show ?thesis
    by (simp add: merge_file_key_def found_hostnames_def found_groups_def)
next
  case YNull
  with assms(2) show ?thesis
    by (simp add: merge_file_key_def found_hostnames_def found_groups_def)
next
  case (YBool b)
  with assms(2) show ?thesis
    by (simp add: merge_file_key_def found_hostnames_def found_groups_def)
next
  case (YInt i)
  with assms(2) show ?thesis
    by (simp add: merge_file_key_def found_hostnames_def found_groups_def)
next
  case (YStr s)
  with assms(2) show ?thesis
    by (simp add: merge_file_key_def found_hostnames_def found_groups_def)
qed

lemma found_hostnames_Cons:
  "found_hostnames (kv # dd) = found_hostnames [kv] @ found_hostnames dd"
  by (simp add: found_hostnames_def)

lemma found_groups_Cons:
  "found_groups (kv # dd) = found_groups [kv] @ found_groups dd"
  by (simp add: found_groups_def)

lemma found_groups_are_groups:
  "wf_directory_dict dd \<Longrightarrow> list_all is_group (found_groups dd)"
  by (induction dd)
     (auto simp: wf_directory_dict_def wf_file_key_def found_groups_def split: yval.splits)

lemma for_each_merge_file_key:
  assumes "wf_directory_dict dd" and "dict_get (main cfg) ''hostnames'' = Some (YList xs)"
    and "list_all is_group (snmp_groups cfg)"
  shows "\<exists>cfg'. for_each merge_file_key dd cfg = Inr cfg'
           \<and> dict_get (main cfg') ''hostnames''
               = Some (YList (fold keep_new (found_hostnames dd) xs))
           \<and> snmp_groups cfg' = fold keep_group (found_groups dd) (snmp_groups cfg)"
  using assms
proof (induction dd arbitrary: cfg xs)
  case Nil
  then show ?case by (simp add: found_hostnames_def found_groups_def)
next
  case (Cons kv dd)
  from Cons.prems(1) have kv: "wf_file_key kv" and rest: "wf_directory_dict dd"
    by (simp_all add: wf_directory_dict_def)
  from merge_file_key_wf [OF kv Cons.prems(2,3)]
  obtain cfg1 where 1: "merge_file_key kv cfg = Inr cfg1"
    and h1: "dict_get (main cfg1) ''hostnames''
               = Some (YList (fold keep_new (found_hostnames [kv]) xs))"
    and g1: "snmp_groups cfg1 = fold keep_group (found_groups [kv]) (snmp_groups cfg)" by blast
  have "list_all is_group (found_groups [kv])"
    using found_groups_are_groups [of "[kv]"] kv by (simp add: wf_directory_dict_def)
  then have gs1: "list_all is_group (snmp_groups cfg1)"
    unfolding g1 using Cons.prems(3) by (rule fold_keep_group_groups)
  from Cons.IH [OF rest h1 gs1]
  obtain cfg2 where 2: "for_each merge_file_key dd cfg1 = Inr cfg2"
    and h2: "dict_get (main cfg2) ''hostnames''
               = Some (YList (fold keep_new (found_hostnames dd)
                                (fold keep_new (found_hostnames [kv]) xs)))"
    and g2: "snmp_groups cfg2 = fold keep_group (found_groups dd) (snmp_groups cfg1)" by blast
  have a: "fold keep_new (found_hostnames (kv # dd)) xs
          = fold keep_new (found_hostnames dd) (fold keep_new (found_hostnames [kv]) xs)"
    by (simp only: found_hostnames_Cons [of kv dd] fold_append comp_apply)
  have b: "fold keep_group (found_groups (kv # dd)) (snmp_groups cfg)
          = fold keep_group (found_groups dd) (fold keep_group (found_groups [kv]) (snmp_groups cfg))"
    by (simp only: found_groups_Cons [of kv dd] fold_append comp_apply)
  from 1 2 h2 g2 g1 a b show ?case by simp
qed

lemma seed_groups_are_groups: "list_all is_group [sample_snmpv2, sample_snmpv3]"
  by (simp add: is_group_def sample_snmpv2_def sample_snmpv3_def dict_get_def)

lemma seed_hostnames:
  "dict_get (main (seed_config username)) ''hostnames''
     = Some (YList [YStr ''None'', YStr ''None''])"
  by (simp add: seed_config_def seed_main_def dict_get_def placeholder_def py_str_None_def
        yaml_null_spellings_def)

lemma Config_init_wf:
  assumes "wf_directory_dict dd"
  shows "\<exists>cfg. Config_init username dd = Inr cfg
           \<and> resolved_hostnames cfg
               = Some (YList (fold keep_new (found_hostnames dd) [YStr ''None'', YStr ''None'']))
           \<and> snmp_groups cfg
               = fold keep_group (found_groups dd) [sample_snmpv2, sample_snmpv3]"
proof -
  have g: "list_all is_group (snmp_groups (seed_config username))"
    using seed_groups_are_groups by (simp add: seed_config_def)
  from for_each_merge_file_key [OF assms seed_hostnames [of username] g]
  show ?thesis by (simp add: Config_init_def resolved_hostnames_def seed_config_def)
qed

subsection \<open>What the loop over the groups keeps\<close>

lemma fold_keep_group_Cons:
  "fold keep_group (g # items) gs
     = fold keep_group items (if group_name g \<in> set (map group_name gs) then gs else gs @ [g])"
  by (simp add: keep_group_def)

lemma fold_keep_group_distinct:
  "distinct (map group_name gs) \<Longrightarrow> distinct (map group_name (fold keep_group items gs))"
proof (induction items arbitrary: gs)
  case Nil
  then show ?case by simp
next
  case (Cons g items)
  show ?case
  proof (cases "group_name g \<in> set (map group_name gs)")
    case True
    with Cons.IH [OF Cons.prems] show ?thesis by (simp only: fold_keep_group_Cons if_True)
  next
    case False
    with Cons.prems have "distinct (map group_name (gs @ [g]))" by simp
    from Cons.IH [OF this] False show ?thesis by (simp only: fold_keep_group_Cons if_False)
  qed
qed

lemma fold_keep_group_names:
  "set (map group_name (fold keep_group items gs)) = set (map group_name (gs @ items))"
proof (induction items arbitrary: gs)
  case Nil
  then show ?case by simp
next
  case (Cons g items)
  show ?case
  proof (cases "group_name g \<in> set (map group_name gs)")
    case True
    with Cons.IH [of gs] show ?thesis
      by (simp only: fold_keep_group_Cons if_True) auto
  next
    case False
    with Cons.IH [of "gs @ [g]"] show ?thesis
      by (simp only: fold_keep_group_Cons if_False) auto
  qed
qed

lemma fold_keep_group_extends:
  "\<exists>more. fold keep_group items gs = gs @ more
        \<and> (\<forall>g\<in>set more. g \<in> set items \<and> group_name g \<notin> set (map group_name gs))"
proof (induction items arbitrary: gs)
  case Nil
  then show ?case by simp
next
  case (Cons g items)
  show ?case
  proof (cases "group_name g \<in> set (map group_name gs)")
    case True
    from Cons.IH [of gs] obtain more where
      "fold keep_group items gs = gs @ more"
      "\<forall>x\<in>set more. x \<in> set items \<and> group_name x \<notin> set (map group_name gs)" by blast
    with True show ?thesis by (simp only: fold_keep_group_Cons if_True) auto
  next
    case False
    from Cons.IH [of "gs @ [g]"] obtain more where
      m: "fold keep_group items (gs @ [g]) = (gs @ [g]) @ more"
      "\<forall>x\<in>set more. x \<in> set items \<and> group_name x \<notin> set (map group_name (gs @ [g]))" by blast
    have "fold keep_group (g # items) gs = gs @ (g # more)"
      using False m(1) by (simp only: fold_keep_group_Cons if_False) simp
    moreover have "\<forall>x\<in>set (g # more). x \<in> set (g # items) \<and> group_name x \<notin> set (map group_name gs)"
      using False m(2) by auto
    ultimately show ?thesis by blast
  qed
qed

lemma find_first_of_distinct:
  "distinct (map f gs) \<Longrightarrow> g \<in> set gs \<Longrightarrow> List.find (\<lambda>x. f x = f g) gs = Some g"
proof (induction gs)
  case Nil
  then show ?case by simp
next
  case (Cons a gs)
  then show ?case by (cases "a = g") (auto simp: image_iff)
qed

lemma find_append_cases:
  "List.find P (xs @ ys) = (case List.find P xs of Some x \<Rightarrow> Some x | None \<Rightarrow> List.find P ys)"
  by (induction xs) auto

lemma find_None_names:
  "List.find (\<lambda>x. f x = v) xs = None \<longleftrightarrow> v \<notin> set (map f xs)"
  by (induction xs) auto

lemma fold_keep_group_first:
  assumes "distinct (map group_name gs)" and "g \<in> set (fold keep_group items gs)"
  shows "List.find (\<lambda>x. group_name x = group_name g) (gs @ items) = Some g"
  using assms
proof (induction items arbitrary: gs)
  case Nil
  then show ?case by (simp add: find_first_of_distinct)
next
  case (Cons a items)
  show ?case
  proof (cases "group_name a \<in> set (map group_name gs)")
    case True
    with Cons.prems(2) have "g \<in> set (fold keep_group items gs)"
      by (simp only: fold_keep_group_Cons if_True)
    from Cons.IH [OF Cons.prems(1) this]
    have ih: "List.find (\<lambda>x. group_name x = group_name g) (gs @ items) = Some g" .
    show ?thesis
    proof (cases "List.find (\<lambda>x. group_name x = group_name g) gs")
      case (Some y)
      with ih show ?thesis by (simp add: find_append_cases)
    next
      case None
      then have "group_name g \<notin> set (map group_name gs)" by (simp add: find_None_names)
      with True have "group_name a \<noteq> group_name g" by auto
      with ih None show ?thesis by (simp add: find_append_cases)
    qed
  next
    case False
    with Cons.prems(2) have m: "g \<in> set (fold keep_group items (gs @ [a]))"
      by (simp only: fold_keep_group_Cons if_False)
    from False Cons.prems(1) have "distinct (map group_name (gs @ [a]))" by simp
    from Cons.IH [OF this m] show ?thesis by simp
  qed
qed

lemma seed_group_names:
  "group_name sample_snmpv2 = Inr (YStr ''SAMPLE_SNMPv2'')"
  "group_name sample_snmpv3 = Inr (YStr ''SAMPLE_SNMPv3'')"
  by (simp_all add: group_name_def sample_snmpv2_def sample_snmpv3_def dict_get_def)

subsection \<open>The resolved hostnames\<close>

text \<open>
  C2, as stated, fails: the seed's two placeholders are both the string \<open>None\<close>, so
  a resolved list holds that entry twice, and fragments \<open>[a, b]\<close> then \<open>[b, c]\<close>
  resolve to \<open>[None, None, a, b, c]\<close>, not to \<open>[a, b, c]\<close>.
\<close>

theorem seed_placeholders_repeat_counterexample:
  "map_sum id resolved_hostnames
     (Config_init (YStr ''switchmap'')
        [(''main'', YDict [(''hostnames'', YList [YStr ''a'', YStr ''b''])])])
     = Inr (Some (YList [YStr ''None'', YStr ''None'', YStr ''a'', YStr ''b'']))
   \<and> \<not> distinct [YStr ''None'', YStr ''None'', YStr ''a'', YStr ''b'']
   \<and> map_sum id resolved_hostnames
     (Config_init (YStr ''switchmap'')
        [(''main'', YDict [(''hostnames'', YList [YStr ''a'', YStr ''b''])]),
         (''main'', YDict [(''hostnames'', YList [YStr ''b'', YStr ''c''])])])
     = Inr (Some (YList [YStr ''None'', YStr ''None'', YStr ''a'', YStr ''b'', YStr ''c'']))"
  by (simp add: Config_init_def merge_file_key_def merge_sub_key_def config_sub_item_def
        config_item_def seed_config_def seed_main_def placeholder_def py_str_None_def
        yaml_null_spellings_def resolved_hostnames_def dict_get_def)

text \<open>
  C2, amended: for every ordered list of well-formed configuration fragments, the
  resolution succeeds and the resolved \<open>hostnames\<close> list is the seed's two
  placeholders \<open>None\<close>, \<open>None\<close> followed by every fragment hostname other than
  \<open>None\<close> exactly once, in the order of its first appearance across the fragments;
  appending a hostname that is already present leaves the list unchanged.
\<close>

theorem hostnames_after_placeholders_by_first_appearance:
  assumes "wf_directory_dict dd"
  shows "(\<exists>cfg. Config_init username dd = Inr cfg
            \<and> resolved_hostnames cfg
                = Some (YList ([YStr ''None'', YStr ''None'']
                          @ first_appearance (filter (\<lambda>h. h \<noteq> YStr ''None'') (found_hostnames dd)))))
       \<and> distinct (first_appearance (filter (\<lambda>h. h \<noteq> YStr ''None'') (found_hostnames dd)))
       \<and> set (first_appearance (filter (\<lambda>h. h \<noteq> YStr ''None'') (found_hostnames dd)))
           = set (found_hostnames dd) - {YStr ''None''}
       \<and> (\<forall>s xs. YStr s \<in> set xs \<longrightarrow> add_hostnames [YStr s] (YList xs) = Inr (YList xs))"
proof -
  have "fold keep_new (found_hostnames dd) [YStr ''None'', YStr ''None'']
          = [YStr ''None'', YStr ''None'']
              @ first_appearance (filter (\<lambda>h. h \<noteq> YStr ''None'') (found_hostnames dd))"
    by (simp add: fold_keep_new)
  with Config_init_wf [OF assms, of username]
  have 1: "\<exists>cfg. Config_init username dd = Inr cfg
            \<and> resolved_hostnames cfg
                = Some (YList ([YStr ''None'', YStr ''None'']
                          @ first_appearance (filter (\<lambda>h. h \<noteq> YStr ''None'') (found_hostnames dd))))"
    by auto
  have 2: "set (first_appearance (filter (\<lambda>h. h \<noteq> YStr ''None'') (found_hostnames dd)))
           = set (found_hostnames dd) - {YStr ''None''}"
    by (auto simp: first_appearance_set)
  have 3: "\<forall>s xs. YStr s \<in> set xs \<longrightarrow> add_hostnames [YStr s] (YList xs) = Inr (YList xs)"
    by (simp add: add_hostnames_in del: add_hostnames.simps) simp
  from 1 2 3 first_appearance_distinct show ?thesis by blast
qed

theorem hostnames_after_placeholders_by_first_appearance_witness:
  "wf_directory_dict
     [(''main'', YDict [(''cache_directory'', YStr ''/var/cache''),
                        (''hostnames'', YList [YStr ''a'', YStr ''b'', YStr ''a'', YStr ''c''])])]
   \<and> (\<exists>cfg. Config_init (YStr ''switchmap'')
               [(''main'', YDict [(''cache_directory'', YStr ''/var/cache''),
                   (''hostnames'', YList [YStr ''a'', YStr ''b'', YStr ''a'', YStr ''c''])])]
             = Inr cfg
          \<and> resolved_hostnames cfg
              = Some (YList [YStr ''None'', YStr ''None'', YStr ''a'', YStr ''b'', YStr ''c'']))"
proof -
  let ?dd = "[(''main'', YDict [(''cache_directory'', YStr ''/var/cache''),
                        (''hostnames'', YList [YStr ''a'', YStr ''b'', YStr ''a'', YStr ''c''])])]"
  have h: "wf_directory_dict ?dd"
    by (simp add: wf_directory_dict_def wf_file_key_def wf_sub_key_def)
  have f: "found_hostnames ?dd = [YStr ''a'', YStr ''b'', YStr ''a'', YStr ''c'']"
    by (simp add: found_hostnames_def sub_hostnames_def)
  show ?thesis
    using h hostnames_after_placeholders_by_first_appearance [OF h, of "YStr ''switchmap''"]
    unfolding f by simp
qed

subsection \<open>The resolved groups\<close>

text \<open>
  C3, as stated, fails: a fragment group named \<open>SAMPLE_SNMPv2\<close> is dropped although
  no fragment group was processed before it; the first occurrence across the
  fragments does not win, the seed group of that name stays.
\<close>

theorem first_fragment_group_dropped_counterexample:
  "map_sum id snmp_groups
     (Config_init (YStr ''switchmap'')
        [(''snmp_groups'',
          YList [YDict [(''group_name'', YStr ''SAMPLE_SNMPv2''), (''snmp_version'', YInt 2),
                        (''snmp_community'', YStr ''public''), (''enabled'', YBool True)]])])
     = Inr [sample_snmpv2, sample_snmpv3]
   \<and> YDict [(''group_name'', YStr ''SAMPLE_SNMPv2''), (''snmp_version'', YInt 2),
             (''snmp_community'', YStr ''public''), (''enabled'', YBool True)]
       \<notin> set [sample_snmpv2, sample_snmpv3]"
  by (simp add: Config_init_def merge_file_key_def add_snmp_group_def snmp_group_found_def
        seed_config_def sample_snmpv2_def sample_snmpv3_def dict_get_def)

text \<open>
  C3, amended: for every ordered list of well-formed configuration fragments, the
  resolution succeeds and the resolved \<open>snmp_groups\<close> list holds exactly one group
  for every \<open>group_name\<close> of the seed groups and the fragment groups: starting from
  the two seed groups, a fragment group is appended if and only if no group kept so
  far (a seed group or an earlier fragment group) shares its \<open>group_name\<close>; later
  duplicates are dropped without error, so the first occurrence in the seed groups
  followed by the fragment groups wins.
\<close>

theorem one_group_per_name_first_of_seed_and_fragments:
  assumes "wf_directory_dict dd"
  shows "\<exists>cfg. Config_init username dd = Inr cfg
           \<and> snmp_groups cfg = fold keep_group (found_groups dd) [sample_snmpv2, sample_snmpv3]
           \<and> distinct (map group_name (snmp_groups cfg))
           \<and> set (map group_name (snmp_groups cfg))
               = set (map group_name ([sample_snmpv2, sample_snmpv3] @ found_groups dd))
           \<and> (\<forall>g\<in>set (snmp_groups cfg).
                 List.find (\<lambda>x. group_name x = group_name g)
                   ([sample_snmpv2, sample_snmpv3] @ found_groups dd) = Some g)"
proof -
  from Config_init_wf [OF assms, of username]
  obtain cfg where c: "Config_init username dd = Inr cfg"
    and g: "snmp_groups cfg = fold keep_group (found_groups dd) [sample_snmpv2, sample_snmpv3]"
    by blast
  have d: "distinct (map group_name [sample_snmpv2, sample_snmpv3])"
    by (simp add: seed_group_names)
  have 1: "distinct (map group_name (snmp_groups cfg))"
    unfolding g using d by (rule fold_keep_group_distinct)
  have 2: "set (map group_name (snmp_groups cfg))
             = set (map group_name ([sample_snmpv2, sample_snmpv3] @ found_groups dd))"
    unfolding g by (rule fold_keep_group_names)
  have 3: "\<forall>g\<in>set (snmp_groups cfg).
             List.find (\<lambda>x. group_name x = group_name g)
               ([sample_snmpv2, sample_snmpv3] @ found_groups dd) = Some g"
    unfolding g using fold_keep_group_first [OF d] by blast
  from c g 1 2 3 show ?thesis by blast
qed

theorem one_group_per_name_first_of_seed_and_fragments_witness:
  "wf_directory_dict
     [(''snmp_groups'',
       YList [YDict [(''group_name'', YStr ''prod''), (''snmp_port'', YInt 161)],
              YDict [(''group_name'', YStr ''prod''), (''snmp_port'', YInt 1161)]])]
   \<and> (\<exists>cfg. Config_init (YStr ''switchmap'')
               [(''snmp_groups'',
                 YList [YDict [(''group_name'', YStr ''prod''), (''snmp_port'', YInt 161)],
                        YDict [(''group_name'', YStr ''prod''), (''snmp_port'', YInt 1161)]])]
             = Inr cfg
          \<and> snmp_groups cfg
              = [sample_snmpv2, sample_snmpv3,
                 YDict [(''group_name'', YStr ''prod''), (''snmp_port'', YInt 161)]])"
proof -
  let ?dd = "[(''snmp_groups'',
       YList [YDict [(''group_name'', YStr ''prod''), (''snmp_port'', YInt 161)],
              YDict [(''group_name'', YStr ''prod''), (''snmp_port'', YInt 1161)]])]"
  have h: "wf_directory_dict ?dd"
    by (simp add: wf_directory_dict_def wf_file_key_def is_group_def dict_get_def)
  have f: "fold keep_group (found_groups ?dd) [sample_snmpv2, sample_snmpv3]
      = [sample_snmpv2, sample_snmpv3,
         YDict [(''group_name'', YStr ''prod''), (''snmp_port'', YInt 161)]]"
    by (simp add: found_groups_def keep_group_def seed_group_names)
       (simp add: group_name_def dict_get_def)
  show ?thesis
    using h one_group_per_name_first_of_seed_and_fragments [OF h, of "YStr ''switchmap''"]
    unfolding f by auto
qed

subsection \<open>The seed template\<close>

text \<open>
  C10, as stated, fails: the two placeholders of the seed are the string \<open>None\<close>,
  not null, since \<open>format\<close> writes the text \<open>None\<close> and \<open>yaml.load\<close> reads it as a
  plain string; and a fragment that leaves \<open>hostnames\<close> empty replaces the list by
  null, so the resolved \<open>hostnames\<close> do not always begin with the placeholders.
\<close>

theorem placeholders_are_strings_counterexample:
  "map_sum id resolved_hostnames (Config_init (YStr ''switchmap'') [])
     = Inr (Some (YList [YStr ''None'', YStr ''None'']))
   \<and> map_sum id resolved_hostnames (Config_init (YStr ''switchmap'') [])
     \<noteq> Inr (Some (YList [YNull, YNull]))
   \<and> map_sum id resolved_hostnames
       (Config_init (YStr ''switchmap'') [(''main'', YDict [(''hostnames'', YNull)])])
     = Inr (Some YNull)"
  by (simp add: Config_init_def merge_file_key_def merge_sub_key_def config_item_def
        seed_config_def seed_main_def placeholder_def py_str_None_def
        yaml_null_spellings_def resolved_hostnames_def dict_get_def)

text \<open>
  C10, amended: merging starts from the built-in seed template, not from an empty
  configuration. For every run of configuration resolution on well-formed
  fragments, the resolved \<open>hostnames\<close> list begins with two placeholder entries,
  each the string \<open>None\<close>, and the resolved \<open>snmp_groups\<close> begin with the two seed
  groups \<open>SAMPLE_SNMPv2\<close> and \<open>SAMPLE_SNMPv3\<close>, both disabled; every other resolved
  group comes from a fragment and bears neither name, so a fragment group bearing
  one of the two names is discarded, without error.
\<close>

theorem resolution_starts_from_seed:
  assumes "wf_directory_dict dd"
  shows "Config_init username [] = Inr (seed_config username)
       \<and> (\<exists>cfg rest more.
             Config_init username dd = Inr cfg
           \<and> resolved_hostnames cfg = Some (YList (YStr ''None'' # YStr ''None'' # rest))
           \<and> snmp_groups cfg = sample_snmpv2 # sample_snmpv3 # more
           \<and> (\<forall>g\<in>set more. g \<in> set (found_groups dd)
                  \<and> group_name g \<noteq> Inr (YStr ''SAMPLE_SNMPv2'')
                  \<and> group_name g \<noteq> Inr (YStr ''SAMPLE_SNMPv3'')))
       \<and> group_name sample_snmpv2 = Inr (YStr ''SAMPLE_SNMPv2'')
       \<and> group_name sample_snmpv3 = Inr (YStr ''SAMPLE_SNMPv3'')
       \<and> subscript sample_snmpv2 ''enabled'' = Inr (YBool False)
       \<and> subscript sample_snmpv3 ''enabled'' = Inr (YBool False)"
proof -
  have 0: "Config_init username [] = Inr (seed_config username)"
    by (simp add: Config_init_def)
  from Config_init_wf [OF assms, of username]
  obtain cfg where c: "Config_init username dd = Inr cfg"
    and h: "resolved_hostnames cfg
              = Some (YList (fold keep_new (found_hostnames dd) [YStr ''None'', YStr ''None'']))"
    and g: "snmp_groups cfg = fold keep_group (found_groups dd) [sample_snmpv2, sample_snmpv3]"
    by blast
  have h': "resolved_hostnames cfg
              = Some (YList (YStr ''None'' # YStr ''None''
                  # first_appearance (filter (\<lambda>h. h \<noteq> YStr ''None'') (found_hostnames dd))))"
    unfolding h by (simp add: fold_keep_new)
  from fold_keep_group_extends [of "found_groups dd" "[sample_snmpv2, sample_snmpv3]"]
  obtain more where m: "fold keep_group (found_groups dd) [sample_snmpv2, sample_snmpv3]
                          = [sample_snmpv2, sample_snmpv3] @ more"
    and n: "\<forall>g\<in>set more. g \<in> set (found_groups dd)
              \<and> group_name g \<notin> set (map group_name [sample_snmpv2, sample_snmpv3])"
    by blast
  from n have n': "\<forall>g\<in>set more. g \<in> set (found_groups dd)
                  \<and> group_name g \<noteq> Inr (YStr ''SAMPLE_SNMPv2'')
                  \<and> group_name g \<noteq> Inr (YStr ''SAMPLE_SNMPv3'')"
    by (simp add: seed_group_names)
  have g': "snmp_groups cfg = sample_snmpv2 # sample_snmpv3 # more"
    unfolding g m by simp
  have e: "subscript sample_snmpv2 ''enabled'' = Inr (YBool False)"
          "subscript sample_snmpv3 ''enabled'' = Inr (YBool False)"
    by (simp_all add: sample_snmpv2_def sample_snmpv3_def dict_get_def)
  from 0 c h' g' n' e seed_group_names show ?thesis by blast
qed

theorem resolution_starts_from_seed_witness:
  "wf_directory_dict
     [(''main'', YDict [(''log_level'', YStr ''info''), (''hostnames'', YList [YStr ''sw1''])]),
      (''snmp_groups'',
       YList [YDict [(''group_name'', YStr ''SAMPLE_SNMPv2''), (''snmp_community'', YStr ''public''),
                     (''enabled'', YBool True)],
              YDict [(''group_name'', YStr ''prod''), (''snmp_port'', YInt 161)]])]
   \<and> (\<exists>cfg. Config_init (YStr ''switchmap'')
               [(''main'', YDict [(''log_level'', YStr ''info''), (''hostnames'', YList [YStr ''sw1''])]),
                (''snmp_groups'',
                 YList [YDict [(''group_name'', YStr ''SAMPLE_SNMPv2''),
                               (''snmp_community'', YStr ''public''), (''enabled'', YBool True)],
                        YDict [(''group_name'', YStr ''prod''), (''snmp_port'', YInt 161)]])]
             = Inr cfg
          \<and> resolved_hostnames cfg = Some (YList [YStr ''None'', YStr ''None'', YStr ''sw1''])
          \<and> snmp_groups cfg
              = [sample_snmpv2, sample_snmpv3,
                 YDict [(''group_name'', YStr ''prod''), (''snmp_port'', YInt 161)]])"
proof -
  let ?dd = "[(''main'', YDict [(''log_level'', YStr ''info''), (''hostnames'', YList [YStr ''sw1''])]),
      (''snmp_groups'',
       YList [YDict [(''group_name'', YStr ''SAMPLE_SNMPv2''), (''snmp_community'', YStr ''public''),
                     (''enabled'', YBool True)],
              YDict [(''group_name'', YStr ''prod''), (''snmp_port'', YInt 161)]])]"
  have h: "wf_directory_dict ?dd"
    by (simp add: wf_directory_dict_def wf_file_key_def wf_sub_key_def is_group_def dict_get_def)
  have run: "\<exists>cfg. Config_init (YStr ''switchmap'') ?dd = Inr cfg
          \<and> resolved_hostnames cfg = Some (YList [YStr ''None'', YStr ''None'', YStr ''sw1''])
          \<and> snmp_groups cfg
              = [sample_snmpv2, sample_snmpv3,
                 YDict [(''group_name'', YStr ''prod''), (''snmp_port'', YInt 161)]]"
    by (simp add: Config_init_def merge_file_key_def merge_sub_key_def config_sub_item_def
          config_item_def add_snmp_group_def snmp_group_found_def seed_config_def seed_main_def
          placeholder_def py_str_None_def yaml_null_spellings_def resolved_hostnames_def
          sample_snmpv2_def sample_snmpv3_def dict_get_def)
  show ?thesis
    using h run resolution_starts_from_seed [OF h, of "YStr ''switchmap''"] by blast
qed

end
